theory Spec2Isabelle
  imports Complex_Main
begin

section \<open>Homeostatic rate controller (src/experiments/noGoController.js)\<close>

text \<open>
  JavaScript numbers are read as real numbers throughout: rounding, NaN and the
  infinities of IEEE doubles are outside this development, with one exception, the
  underflow of \<^verbatim>\<open>Math.exp\<close> to zero in the prior of the staircase wrapper. The
  two counters are natural numbers.
\<close>

record config =
  pTargetFA :: real
  fBase :: real
  fMin :: real
  fMax :: real
  Kp :: real
  emaAlpha :: real

text \<open>The closure constant \<^verbatim>\<open>cfg\<close> of the module.\<close>

definition cfg :: config where
  "cfg = \<lparr>pTargetFA = 0.05, fBase = 0.18, fMin = 0.1, fMax = 0.45, Kp = 2.0, emaAlpha = 0.12\<rparr>"

text \<open>
  The three closure variables \<^verbatim>\<open>faEma\<close>, \<^verbatim>\<open>nNoGo\<close>, \<^verbatim>\<open>nFA\<close>;
  \<open>None\<close> is JavaScript's \<^verbatim>\<open>null\<close>.
\<close>

record ctrl =
  faEma :: "real option"
  nNoGo :: nat
  nFA :: nat

definition initial :: ctrl where
  "initial = \<lparr>faEma = None, nNoGo = 0, nFA = 0\<rparr>"

text \<open>The argument object of \<^verbatim>\<open>onTrialEnd\<close>.\<close>

record trial =
  isNoGo :: bool
  responded :: bool

definition onTrialEnd :: "trial \<Rightarrow> ctrl \<Rightarrow> ctrl" where
  "onTrialEnd t s =
     (if \<not> isNoGo t then s
      else
        let s1 = s\<lparr>nNoGo := nNoGo s + 1\<rparr>;
            s2 = (if responded t then s1\<lparr>nFA := nFA s1 + 1\<rparr> else s1);
            obs = (if responded t then 1 else 0)
        in (case faEma s2 of
              None \<Rightarrow> s2\<lparr>faEma := Some obs\<rparr>
            | Some e \<Rightarrow> s2\<lparr>faEma := Some ((1 - emaAlpha cfg) * e + emaAlpha cfg * obs)\<rparr>))"

definition estFA :: "ctrl \<Rightarrow> real" where
  "estFA s = (case faEma s of None \<Rightarrow> pTargetFA cfg | Some e \<Rightarrow> e)"

definition pNoGo :: "ctrl \<Rightarrow> real" where
  "pNoGo s =
     (let err = max 0 (estFA s - pTargetFA cfg);
          f0 = fBase cfg + Kp cfg * err;
          f1 = (if f0 < fMin cfg then fMin cfg else f0);
          f2 = (if f1 > fMax cfg then fMax cfg else f1)
      in f2)"

text \<open>A session: the outcomes of a list of trials reported in order.\<close>

definition run :: "trial list \<Rightarrow> ctrl \<Rightarrow> ctrl" where
  "run ts s = foldl (\<lambda>s t. onTrialEnd t s) s ts"

text \<open>\<open>n\<close> catch trials in a row, all with the same \<^verbatim>\<open>responded\<close> flag.\<close>

definition catchRun :: "bool \<Rightarrow> nat \<Rightarrow> ctrl \<Rightarrow> ctrl" where
  "catchRun r n s = run (replicate n \<lparr>isNoGo = True, responded = r\<rparr>) s"

text \<open>The invariant of the controller's state that every reported outcome keeps.\<close>

definition ctrlInv :: "ctrl \<Rightarrow> bool" where
  "ctrlInv s =
     (nFA s \<le> nNoGo s \<and>
      (case faEma s of None \<Rightarrow> nNoGo s = 0 | Some e \<Rightarrow> 0 \<le> e \<and> e \<le> 1 \<and> 0 < nNoGo s))"

section \<open>Context-aware staircase wrapper (src/experiments/adaptiveQuest.js)\<close>

subsection \<open>Bins, direction sectors and grids\<close>

definition SOA_BINS :: "(real \<times> real) list" where
  "SOA_BINS = [(100, 200), (200, 350), (350, 550), (550, 900)]"

definition ECC_BINS :: "(real \<times> real) list" where
  "ECC_BINS = [(0, 80), (80, 140), (140, 200), (200, 300)]"

text \<open>
  JavaScript's \<^verbatim>\<open>%\<close> on numbers: the remainder has the sign of the dividend (the
  quotient is truncated towards zero).
\<close>

definition js_rem :: "real \<Rightarrow> real \<Rightarrow> real" where
  "js_rem x y =
     x - y * of_int (if 0 \<le> x / y then \<lfloor>x / y\<rfloor> else \<lceil>x / y\<rceil>)"

definition angGroup :: "real \<Rightarrow> string" where
  "angGroup thetaRad =
     (let d = js_rem (thetaRad * 180 / pi + 360) 360
      in if d < 45 \<or> d \<ge> 315 then ''E''
         else if d < 135 then ''N''
         else if d < 225 then ''W''
         else ''S'')"

text \<open>Each group is its \<^verbatim>\<open>name\<close> and its \<^verbatim>\<open>test\<close>.\<close>

definition ANG_GROUPS :: "(string \<times> (real \<Rightarrow> bool)) list" where
  "ANG_GROUPS =
     [(''cardinal-E'', \<lambda>th. angGroup th = ''E''),
      (''cardinal-N'', \<lambda>th. angGroup th = ''N''),
      (''cardinal-W'', \<lambda>th. angGroup th = ''W''),
      (''cardinal-S'', \<lambda>th. angGroup th = ''S'')]"

fun inRange :: "real \<Rightarrow> real \<times> real \<Rightarrow> bool" where
  "inRange x (lo, hi) = (x \<ge> lo \<and> x < hi)"

definition linspace :: "real \<Rightarrow> real \<Rightarrow> nat \<Rightarrow> real list" where
  "linspace a b n = (let s = (b - a) / (real n - 1) in map (\<lambda>i. a + real i * s) [0..<n])"

definition magnitudeGridDva :: "real list" where
  "magnitudeGridDva = linspace 0.05 2.50 40"

definition betaGrid :: "real list" where
  "betaGrid = [2, 3, 4, 5]"

definition lambdaGrid :: "real list" where
  "lambdaGrid = [0.01, 0.02]"

definition guessRate :: real where
  "guessRate = 0.00"

subsection \<open>Psychometric function and prior\<close>

text \<open>
  \<^verbatim>\<open>Math.pow(x, y)\<close> is \<open>x powr y\<close> for a positive base \<open>x\<close>, which is the case
  for a positive stimulus and a positive threshold; \<^verbatim>\<open>Math.exp\<close> is \<open>exp\<close>.
  The default value of \<^verbatim>\<open>guess\<close> is not modelled: every call in the file passes
  five arguments.
\<close>

definition pWeibull :: "real \<Rightarrow> real \<Rightarrow> real \<Rightarrow> real \<Rightarrow> real \<Rightarrow> real" where
  "pWeibull stim alpha beta guess lapse =
     guess + (1 - guess - lapse) * (1 - exp (- ((stim / alpha) powr beta)))"

text \<open>
  \<^verbatim>\<open>Math.exp\<close> where its underflow decides a branch. No double lies between 0 and
  \<open>2 ^ - 1074\<close>, and the exponential of an argument below -745.14 is less than half of
  that, so \<^verbatim>\<open>Math.exp\<close> returns 0 there; above the threshold the model keeps the
  exact exponential. \<^verbatim>\<open>alphaPriorOnGrid\<close> tests the sum of such values for zero
  (\<^verbatim>\<open>|| 1\<close>). In \<^verbatim>\<open>pWeibull\<close> the same underflow changes the value by less than
  the rounding of the result and no branch reads it, so the exact exponential stands there.
\<close>

definition Math_exp :: "real \<Rightarrow> real" where
  "Math_exp x = (if x < - 745.14 then 0 else exp x)"

text \<open>
  The density that \<^verbatim>\<open>alphaPriorOnGrid\<close> maps over the grid (line 39).
  \<^verbatim>\<open>Math.log\<close> is \<open>ln\<close> on positive arguments, and \<^verbatim>\<open>Math.pow(x, 2)\<close> is the
  square.
\<close>

definition lognormalPdf :: "real \<Rightarrow> real \<Rightarrow> real \<Rightarrow> real" where
  "lognormalPdf mu sigma a =
     (1 / (a * sigma * sqrt (2 * pi))) * Math_exp (- ((ln a - mu) ^ 2) / (2 * sigma * sigma))"

text \<open>
  \<^verbatim>\<open>pdf.reduce((x,y)=>x+y,0) || 1\<close>: a sum of zero is falsy and is replaced by 1.
  The parameters with default values are explicit arguments.
\<close>

definition alphaPriorOnGrid ::
  "real list \<Rightarrow> real \<Rightarrow> real \<Rightarrow> real \<Rightarrow> real \<Rightarrow> real \<Rightarrow> real \<Rightarrow> real \<Rightarrow> real \<Rightarrow> real list" where
  "alphaPriorOnGrid alphaGrid soaI eccI angI base kSOA kECC kANG sigma =
     (let scale = (1 + kSOA * soaI) * (1 + kECC * eccI) * (1 + kANG * angI);
          mu = ln (base * scale);
          pdf = map (lognormalPdf mu sigma) alphaGrid;
          Z0 = foldl (\<lambda>x y. x + y) 0 pdf;
          Z = (if Z0 = 0 then 1 else Z0)
      in map (\<lambda>p. p / Z) pdf)"

text \<open>
  The call of \<^verbatim>\<open>initAdaptiveQuest\<close> for the cell \<open>(i, j, k)\<close> (line 72), with the
  default values of \<^verbatim>\<open>kSOA\<close>, \<^verbatim>\<open>kECC\<close>, \<^verbatim>\<open>kANG\<close> and \<^verbatim>\<open>sigma\<close>.
\<close>

definition cellPriorAlpha :: "nat \<Rightarrow> nat \<Rightarrow> nat \<Rightarrow> real list" where
  "cellPriorAlpha i j k =
     alphaPriorOnGrid magnitudeGridDva (real i) (real j) (real k) 0.6 0.20 0.20 0.05 0.35"

subsection \<open>Context lookup\<close>

text \<open>\<^verbatim>\<open>Array.prototype.findIndex\<close>: the first index whose element passes, else -1.\<close>

fun findIndexFrom :: "int \<Rightarrow> ('a \<Rightarrow> bool) \<Rightarrow> 'a list \<Rightarrow> int" where
  "findIndexFrom i P [] = - 1"
| "findIndexFrom i P (x # xs) = (if P x then i else findIndexFrom (i + 1) P xs)"

definition findIndex :: "('a \<Rightarrow> bool) \<Rightarrow> 'a list \<Rightarrow> int" where
  "findIndex P xs = findIndexFrom 0 P xs"

text \<open>The argument object \<^verbatim>\<open>{ soaMs, eccPx, thetaRad }\<close>.\<close>

record trialContext =
  soaMs :: real
  eccPx :: real
  thetaRad :: real

record indices =
  soaIdx :: int
  eccIdx :: int
  angIdx :: int

definition contextToIndices :: "trialContext \<Rightarrow> indices" where
  "contextToIndices c =
     \<lparr>soaIdx = findIndex (\<lambda>b. inRange (soaMs c) b) SOA_BINS,
      eccIdx = findIndex (\<lambda>b. inRange (eccPx c) b) ECC_BINS,
      angIdx = findIndex (\<lambda>g. snd g (thetaRad c)) ANG_GROUPS\<rparr>"

text \<open>The guard \<^verbatim>\<open>soaIdx<0 || eccIdx<0 || angIdx<0\<close> of lines 92 and 117.\<close>

definition unmatched :: "indices \<Rightarrow> bool" where
  "unmatched ix = (soaIdx ix < 0 \<or> eccIdx ix < 0 \<or> angIdx ix < 0)"

subsection \<open>The engines\<close>

text \<open>
  The cells are objects of the external staircase library. Its three methods used here
  are parameters of the model: each takes the engine's state and returns the state after
  the call together with the value returned or the exception thrown (\<open>Inl\<close>).
\<close>

datatype exn = TypeError | EngineError

text \<open>
  What \<^verbatim>\<open>getEstimates\<close> returns: an array of numbers, or \<^verbatim>\<open>undefined\<close> or
  \<^verbatim>\<open>null\<close>.
\<close>

datatype estimates = Undefined | Null | Arr "real list"

record 'e engineApi =
  getStimParams :: "'e \<Rightarrow> 'e \<times> (exn + real)"
  getEstimates :: "string \<Rightarrow> 'e \<Rightarrow> 'e \<times> (exn + estimates)"
  update :: "real \<Rightarrow> nat \<Rightarrow> 'e \<Rightarrow> 'e \<times> (exn + unit)"

text \<open>The global \<^verbatim>\<open>engines\<close>, indexed \<^verbatim>\<open>[soa][ecc][ang]\<close>.\<close>

type_synonym 'e engines = "'e list list list"

text \<open>Reading an array at an index: \<open>None\<close> is \<^verbatim>\<open>undefined\<close>.\<close>

definition elemAt :: "'a list \<Rightarrow> int \<Rightarrow> 'a option" where
  "elemAt xs i = (if 0 \<le> i \<and> i < int (length xs) then Some (xs ! nat i) else None)"

text \<open>
  \<^verbatim>\<open>engines[soaIdx][eccIdx]\<close>: reading a property of \<^verbatim>\<open>undefined\<close> throws a
  TypeError.
\<close>

definition enginesRow :: "'e engines \<Rightarrow> indices \<Rightarrow> exn + 'e list" where
  "enginesRow engines ix =
     (case elemAt engines (soaIdx ix) of
        None \<Rightarrow> Inl TypeError
      | Some rows \<Rightarrow>
          (case elemAt rows (eccIdx ix) of
             None \<Rightarrow> Inl TypeError
           | Some cols \<Rightarrow> Inr cols))"

text \<open>The engines after the object at \<open>ix\<close> has changed its state to \<open>e\<close>.\<close>

definition setCell :: "'e engines \<Rightarrow> indices \<Rightarrow> 'e \<Rightarrow> 'e engines" where
  "setCell engines ix e =
     (let i = nat (soaIdx ix); j = nat (eccIdx ix); k = nat (angIdx ix)
      in engines[i := (engines ! i)[j := (engines ! i ! j)[k := e]]])"

subsection \<open>Proposing a stimulus\<close>

text \<open>
  The loop of lines 103 to 108 over the rest of the grid; \<open>bestDiff = None\<close> is
  \<^verbatim>\<open>Infinity\<close>, which every distance is below.
\<close>

fun targetScan ::
  "real list \<Rightarrow> real \<Rightarrow> real list \<Rightarrow> real \<Rightarrow> real option \<Rightarrow> real" where
  "targetScan est target [] best bestDiff = best"
| "targetScan est target (v # vs) best bestDiff =
     (let p = pWeibull v (est ! 0) (est ! 1) (est ! 2) (est ! 3);
          d = \<bar>p - target\<bar>
      in if (case bestDiff of None \<Rightarrow> True | Some b \<Rightarrow> d < b)
         then targetScan est target vs v (Some d)
         else targetScan est target vs best bestDiff)"

text \<open>
  The distance \<^verbatim>\<open>d\<close> that the loop computes for a grid value \<open>v\<close>, used to state
  what the loop returns.
\<close>

definition targetDist :: "real list \<Rightarrow> real \<Rightarrow> real \<Rightarrow> real" where
  "targetDist est target v = \<bar>pWeibull v (est ! 0) (est ! 1) (est ! 2) (est ! 3) - target\<bar>"

definition suggestDeltaForContext ::
  "'e engineApi \<Rightarrow> 'e engines \<Rightarrow> trialContext \<Rightarrow> real \<Rightarrow> 'e engines \<times> (exn + real)" where
  "suggestDeltaForContext api engines c target =
     (let ix = contextToIndices c
      in if unmatched ix then (engines, Inr 0.6)
         else
           (case enginesRow engines ix of
              Inl x \<Rightarrow> (engines, Inl x)
            | Inr cols \<Rightarrow>
                (case elemAt cols (angIdx ix) of
                   None \<Rightarrow> (engines, Inl TypeError)
                 | Some eng \<Rightarrow>
                     (case getStimParams api eng of
                        (eng1, Inl x) \<Rightarrow> (setCell engines ix eng1, Inl x)
                      | (eng1, Inr chosen) \<Rightarrow>
                          (case getEstimates api ''mode'' eng1 of
                             (eng2, Inl x) \<Rightarrow> (setCell engines ix eng2, Inr chosen)
                           | (eng2, Inr est) \<Rightarrow>
                               (setCell engines ix eng2,
                                Inr (case est of
                                       Arr xs \<Rightarrow>
                                         if length xs \<ge> 4
                                         then targetScan xs target magnitudeGridDva chosen None
                                         else chosen
                                     | _ \<Rightarrow> chosen)))))))"

subsection \<open>Recording an outcome\<close>

text \<open>
  How a call of \<^verbatim>\<open>updateQuestWithOutcome\<close> ends: it returns, it returns after
  \<^verbatim>\<open>console.warn\<close> on a caught exception, or it throws.
\<close>

datatype ending = Returned | Warned exn | Thrown exn

definition updateQuestWithOutcome ::
  "'e engineApi \<Rightarrow> 'e engines \<Rightarrow> trialContext \<Rightarrow> real \<Rightarrow> bool \<Rightarrow> 'e engines \<times> ending" where
  "updateQuestWithOutcome api engines c delta resp =
     (let ix = contextToIndices c
      in if unmatched ix then (engines, Returned)
         else
           (case enginesRow engines ix of
              Inl x \<Rightarrow> (engines, Thrown x)
            | Inr cols \<Rightarrow>
                (case elemAt cols (angIdx ix) of
                   None \<Rightarrow> (engines, Warned TypeError)
                 | Some eng \<Rightarrow>
                     (case update api delta (if resp then 1 else 0) eng of
                        (eng1, Inl x) \<Rightarrow> (setCell engines ix eng1, Warned x)
                      | (eng1, Inr u) \<Rightarrow> (setCell engines ix eng1, Returned)))))"

subsection \<open>Exporting the estimates\<close>

text \<open>
  A record pushed to \<^verbatim>\<open>out\<close>; \<open>None\<close> in a field is \<^verbatim>\<open>undefined\<close>.
\<close>

record posterior =
  dim :: string
  cell_i :: nat
  cell_j :: nat
  cell_k :: nat
  est_alpha :: "real option"
  est_beta :: "real option"

text \<open>\<^verbatim>\<open>est?.[n]\<close>.\<close>

fun optAt :: "estimates \<Rightarrow> nat \<Rightarrow> real option" where
  "optAt (Arr xs) n = (if n < length xs then Some (xs ! n) else None)"
| "optAt Undefined n = None"
| "optAt Null n = None"

text \<open>
  \<^verbatim>\<open>forEach\<close> with the element's index, from index \<open>i\<close> on; the callback may change
  the element and the accumulated \<^verbatim>\<open>out\<close>.
\<close>

fun forEachFrom ::
  "nat \<Rightarrow> (nat \<Rightarrow> 'a \<Rightarrow> 'o \<Rightarrow> 'a \<times> 'o) \<Rightarrow> 'a list \<Rightarrow> 'o \<Rightarrow> 'a list \<times> 'o" where
  "forEachFrom i f [] out = ([], out)"
| "forEachFrom i f (x # xs) out =
     (case f i x out of
        (x1, out1) \<Rightarrow>
          (case forEachFrom (Suc i) f xs out1 of
             (xs1, out2) \<Rightarrow> (x1 # xs1, out2)))"

text \<open>The body of the innermost callback: the \<^verbatim>\<open>try\<close> with its empty \<^verbatim>\<open>catch\<close>.\<close>

definition exportCell ::
  "'e engineApi \<Rightarrow> nat \<Rightarrow> nat \<Rightarrow> nat \<Rightarrow> 'e \<Rightarrow> posterior list \<Rightarrow> 'e \<times> posterior list" where
  "exportCell api i j k e out =
     (case getEstimates api ''mean'' e of
        (e1, Inl x) \<Rightarrow> (e1, out)
      | (e1, Inr est) \<Rightarrow>
          (e1, out @ [\<lparr>dim = ''vector'', cell_i = i, cell_j = j, cell_k = k,
                       est_alpha = optAt est 0, est_beta = optAt est 1\<rparr>]))"

definition exportPosteriors :: "'e engineApi \<Rightarrow> 'e engines \<Rightarrow> 'e engines \<times> posterior list" where
  "exportPosteriors api engines =
     forEachFrom 0 (\<lambda>i rows. forEachFrom 0 (\<lambda>j cols. forEachFrom 0 (\<lambda>k e. exportCell api i j k e) cols) rows)
       engines []"

subsection \<open>What the export is expected to hold\<close>

text \<open>
  The records of one cell: none when \<^verbatim>\<open>getEstimates('mean')\<close> throws, else one
  record with the cell's indices and the first two entries of the estimate.
\<close>

definition cellRecord :: "'e engineApi \<Rightarrow> nat \<Rightarrow> nat \<Rightarrow> nat \<Rightarrow> 'e \<Rightarrow> posterior list" where
  "cellRecord api i j k e =
     (case snd (getEstimates api ''mean'' e) of
        Inl x \<Rightarrow> []
      | Inr est \<Rightarrow>
          [\<lparr>dim = ''vector'', cell_i = i, cell_j = j, cell_k = k,
            est_alpha = optAt est 0, est_beta = optAt est 1\<rparr>])"

text \<open>The records of all cells in partition order: \<open>i\<close> outermost, \<open>k\<close> innermost.\<close>

definition expectedRecords :: "'e engineApi \<Rightarrow> 'e engines \<Rightarrow> posterior list" where
  "expectedRecords api engines =
     concat (map (\<lambda>(i, rows).
       concat (map (\<lambda>(j, cols).
         concat (map (\<lambda>(k, e). cellRecord api i j k e) (enumerate 0 cols)))
         (enumerate 0 rows)))
       (enumerate 0 engines))"

subsection \<open>Engines and contexts for the examples\<close>

text \<open>
  An engine whose state is the number of updates it has received. It proposes 1, and it
  has an estimate once it has been updated; before that \<open>stubApi\<close> returns
  \<^verbatim>\<open>null\<close> and \<open>faultyApi\<close> throws.
\<close>

definition stubApi :: "nat engineApi" where
  "stubApi =
     \<lparr>getStimParams = (\<lambda>e. (e, Inr 1)),
      getEstimates = (\<lambda>rule e. (e, Inr (if e = 0 then Null else Arr [0.6, 3, 0, 0.01]))),
      update = (\<lambda>delta r e. (Suc e, Inr ()))\<rparr>"

definition faultyApi :: "nat engineApi" where
  "faultyApi =
     \<lparr>getStimParams = (\<lambda>e. (e, Inr 1)),
      getEstimates = (\<lambda>rule e. (e, if e = 0 then Inl EngineError else Inr (Arr [0.6, 3, 0, 0.01]))),
      update = (\<lambda>delta r e. (Suc e, Inr ()))\<rparr>"

text \<open>Two cells: \<open>(0, 0, 0)\<close> has been updated once, \<open>(0, 0, 1)\<close> never.\<close>

definition stubEngines :: "nat engines" where
  "stubEngines = [[[1, 0]]]"

definition insideContext :: trialContext where
  "insideContext = \<lparr>soaMs = 150, eccPx = 50, thetaRad = 0\<rparr>"

definition outsideContext :: trialContext where
  "outsideContext = \<lparr>soaMs = 900, eccPx = 50, thetaRad = 0\<rparr>"

section \<open>Properties of the rate controller\<close>

text \<open>
  C9: a call of \<^verbatim>\<open>onTrialEnd\<close> for a trial that is not a catch trial
  (\<^verbatim>\<open>isNoGo\<close> false) leaves the moving average, the catch-trial count and the
  false-alarm count as they were, whatever the \<^verbatim>\<open>responded\<close> flag is.
\<close>

theorem nonCatch_frame:
  "onTrialEnd \<lparr>isNoGo = False, responded = r\<rparr> s = s
   \<and> faEma (onTrialEnd \<lparr>isNoGo = False, responded = r\<rparr> s) = faEma s
   \<and> nNoGo (onTrialEnd \<lparr>isNoGo = False, responded = r\<rparr> s) = nNoGo s
   \<and> nFA (onTrialEnd \<lparr>isNoGo = False, responded = r\<rparr> s) = nFA s"
  by (simp add: onTrialEnd_def)

subsection \<open>Clamping\<close>

lemma pNoGo_formula:
  "pNoGo s = min (fMax cfg) (max (fMin cfg) (fBase cfg + Kp cfg * max 0 (estFA s - pTargetFA cfg)))"
  by (simp add: pNoGo_def cfg_def Let_def min_def max_def)

lemma pNoGo_bounds: "fMin cfg \<le> pNoGo s \<and> pNoGo s \<le> fMax cfg"
  by (simp add: pNoGo_def cfg_def Let_def)

text \<open>
  C2: in every state of the controller \<^verbatim>\<open>pNoGo\<close> is the baseline plus the gain times
  \<open>max 0 (estimated rate - target rate)\<close>, clamped to \<open>[fMin, fMax]\<close>, where the
  estimated rate is the moving average once a catch outcome has been seen and the
  target rate before. So the value lies in \<open>[fMin, fMax]\<close> in every state, and after
  any list of reported outcomes.
\<close>

theorem pNoGo_clamped:
  "pNoGo s = min (fMax cfg) (max (fMin cfg)
       (fBase cfg + Kp cfg *
          max 0 ((case faEma s of None \<Rightarrow> pTargetFA cfg | Some e \<Rightarrow> e) - pTargetFA cfg)))
   \<and> fMin cfg \<le> pNoGo s \<and> pNoGo s \<le> fMax cfg
   \<and> fMin cfg \<le> pNoGo (run ts s) \<and> pNoGo (run ts s) \<le> fMax cfg"
  using pNoGo_formula [of s] pNoGo_bounds [of s] pNoGo_bounds [of "run ts s"]
  by (simp add: estFA_def)

subsection \<open>The invariant of the counters and the moving average\<close>

lemma ctrlInv_step: "ctrlInv s \<Longrightarrow> ctrlInv (onTrialEnd t s)"
  by (auto simp: ctrlInv_def onTrialEnd_def cfg_def Let_def split: option.splits)

lemma ctrlInv_run: "ctrlInv s \<Longrightarrow> ctrlInv (run ts s)"
  unfolding run_def by (induction ts arbitrary: s) (auto intro: ctrlInv_step)

text \<open>
  C10: after every finite sequence of calls of \<^verbatim>\<open>onTrialEnd\<close> from the initial
  state, the false-alarm count is at most the catch-trial count, and the moving average
  is \<^verbatim>\<open>null\<close> exactly while no catch outcome has been reported and a value of
  \<open>[0, 1]\<close> afterwards.
\<close>

theorem ctrl_invariant:
  "nFA (run ts initial) \<le> nNoGo (run ts initial)
   \<and> (case faEma (run ts initial) of
         None \<Rightarrow> nNoGo (run ts initial) = 0
       | Some e \<Rightarrow> 0 \<le> e \<and> e \<le> 1 \<and> 0 < nNoGo (run ts initial))"
proof -
  have "ctrlInv initial" by (simp add: ctrlInv_def initial_def)
  then have "ctrlInv (run ts initial)" by (rule ctrlInv_run)
  then show ?thesis by (simp add: ctrlInv_def)
qed

subsection \<open>Runs of catch trials\<close>

lemma catchRun_0: "catchRun r 0 s = s"
  by (simp add: catchRun_def run_def)

lemma catchRun_Suc: "catchRun r (Suc n) s = onTrialEnd \<lparr>isNoGo = True, responded = r\<rparr> (catchRun r n s)"
  by (simp add: catchRun_def run_def replicate_append_same [symmetric])

lemma catchRun_add: "catchRun r (m + n) s = catchRun r n (catchRun r m s)"
  by (simp add: catchRun_def run_def replicate_add)

lemma pNoGo_None: "faEma s = None \<Longrightarrow> pNoGo s = fBase cfg"
  by (simp add: pNoGo_def estFA_def cfg_def Let_def)

lemma pNoGo_high: "faEma s = Some e \<Longrightarrow> 0.185 \<le> e \<Longrightarrow> pNoGo s = fMax cfg"
  by (simp add: pNoGo_def estFA_def cfg_def Let_def max_def)

lemma pNoGo_low: "faEma s = Some e \<Longrightarrow> e \<le> 0.05 \<Longrightarrow> pNoGo s = fBase cfg"
  by (simp add: pNoGo_def estFA_def cfg_def Let_def max_def)

lemma pNoGo_mono: "faEma s = Some a \<Longrightarrow> faEma s' = Some b \<Longrightarrow> a \<le> b \<Longrightarrow> pNoGo s \<le> pNoGo s'"
  by (simp add: pNoGo_def estFA_def cfg_def Let_def max_def)

lemma faEma_step_None:
  "faEma s = None \<Longrightarrow> faEma (onTrialEnd \<lparr>isNoGo = True, responded = r\<rparr> s) = Some (if r then 1 else 0)"
  by (simp add: onTrialEnd_def Let_def)

lemma faEma_step_Some:
  "faEma s = Some e \<Longrightarrow>
   faEma (onTrialEnd \<lparr>isNoGo = True, responded = r\<rparr> s) = Some (0.88 * e + 0.12 * (if r then 1 else 0))"
  by (simp add: onTrialEnd_def Let_def cfg_def)

lemma hit_step_mono: "pNoGo s \<le> pNoGo (onTrialEnd \<lparr>isNoGo = True, responded = True\<rparr> s)"
proof (cases "faEma s")
  case None
  have "pNoGo (onTrialEnd \<lparr>isNoGo = True, responded = True\<rparr> s) = fMax cfg"
    using faEma_step_None [OF None, of True] by (intro pNoGo_high [of _ 1]) simp_all
  then show ?thesis
    using pNoGo_None [OF None] by (simp add: cfg_def)
next
  case (Some e)
  let ?s' = "onTrialEnd \<lparr>isNoGo = True, responded = True\<rparr> s"
  have s': "faEma ?s' = Some (0.88 * e + 0.12)"
    using faEma_step_Some [OF Some, of True] by simp
  show ?thesis
  proof (cases "e \<le> 1")
    case True
    then have "e \<le> 0.88 * e + 0.12" by simp
    then show ?thesis by (rule pNoGo_mono [OF Some s'])
  next
    case False
    then have "pNoGo s = fMax cfg" "pNoGo ?s' = fMax cfg"
      using pNoGo_high [OF Some] pNoGo_high [OF s'] by simp_all
    then show ?thesis by simp
  qed
qed

lemma ema_hit_arith: "0.88 * (1 - p * (1 - e)) + 0.12 = 1 - (0.88 * p) * (1 - e)" for p e :: real
proof -
  have "0.88 * (1 - q) + 0.12 = 1 - 0.88 * q" for q :: real
    by simp argo
  from this [of "p * (1 - e)"] show ?thesis
    by (simp only: mult.assoc)
qed

lemma faEma_hits:
  "faEma s = Some e \<Longrightarrow> faEma (catchRun True n s) = Some (1 - 0.88 ^ n * (1 - e))"
proof (induction n)
  case 0
  then show ?case by (simp add: catchRun_0)
next
  case (Suc n)
  have "faEma (catchRun True (Suc n) s) = Some (0.88 * (1 - 0.88 ^ n * (1 - e)) + 0.12)"
    using faEma_step_Some [OF Suc.IH [OF Suc.prems], of True] by (simp add: catchRun_Suc)
  also have "0.88 * (1 - 0.88 ^ n * (1 - e)) + 0.12 = 1 - 0.88 ^ Suc n * (1 - e)"
    using ema_hit_arith [of "0.88 ^ n" e] by simp
  finally show ?case .
qed

lemma faEma_misses:
  "faEma s = Some e \<Longrightarrow> faEma (catchRun False n s) = Some (0.88 ^ n * e)"
proof (induction n)
  case 0
  then show ?case by (simp add: catchRun_0)
next
  case (Suc n)
  have "faEma (catchRun False (Suc n) s) = Some (0.88 * (0.88 ^ n * e))"
    using faEma_step_Some [OF Suc.IH [OF Suc.prems], of False] by (simp add: catchRun_Suc)
  then show ?case by (simp add: mult.assoc)
qed

lemma pow_small: "\<exists>N. \<forall>n. (0.88::real) ^ (N + n) * c \<le> d" if "0 < d" for c d :: real
proof -
  have "0 < d / (1 + \<bar>c\<bar>)" using that by simp
  then obtain N where "(0.88::real) ^ N < d / (1 + \<bar>c\<bar>)"
    using real_arch_pow_inv [of "d / (1 + \<bar>c\<bar>)" "0.88"] by auto
  then have N: "(0.88::real) ^ N * (1 + \<bar>c\<bar>) < d"
    by (simp add: pos_less_divide_eq)
  have "(0.88::real) ^ (N + n) * c \<le> d" for n
  proof -
    have "(0.88::real) ^ (N + n) \<le> 0.88 ^ N"
      by (rule power_decreasing) simp_all
    then have "(0.88::real) ^ (N + n) * \<bar>c\<bar> \<le> 0.88 ^ N * \<bar>c\<bar>"
      by (rule mult_right_mono) simp
    moreover have "(0.88::real) ^ N * \<bar>c\<bar> \<le> 0.88 ^ N * (1 + \<bar>c\<bar>)"
      by (rule mult_left_mono) simp_all
    moreover have "(0.88::real) ^ (N + n) * c \<le> 0.88 ^ (N + n) * \<bar>c\<bar>"
      by (rule mult_left_mono) simp_all
    ultimately show ?thesis using N by linarith
  qed
  then show ?thesis by blast
qed

lemma hits_reach_some:
  assumes "faEma s = Some e"
  shows "\<exists>N. \<forall>n. pNoGo (catchRun True (N + n) s) = fMax cfg"
proof -
  obtain N where N: "\<And>n. (0.88::real) ^ (N + n) * (1 - e) \<le> 0.815"
    using pow_small [of "0.815" "1 - e"] by auto
  have "pNoGo (catchRun True (N + n) s) = fMax cfg" for n
    using N [of n] by (intro pNoGo_high [OF faEma_hits [OF assms]]) simp
  then show ?thesis by blast
qed

lemma misses_reach_some:
  assumes "faEma s = Some e"
  shows "\<exists>N. \<forall>n. pNoGo (catchRun False (N + n) s) = fBase cfg"
proof -
  obtain N where N: "\<And>n. (0.88::real) ^ (N + n) * e \<le> 0.05"
    using pow_small [of "0.05" e] by auto
  have "pNoGo (catchRun False (N + n) s) = fBase cfg" for n
    using N [of n] by (intro pNoGo_low [OF faEma_misses [OF assms]]) simp
  then show ?thesis by blast
qed

lemma faEma_after_one: "\<exists>e. faEma (catchRun r 1 s) = Some e"
  using catchRun_Suc [of r 0 s] faEma_step_None [of s r] faEma_step_Some [of s _ r]
  by (cases "faEma s") (simp_all add: catchRun_0)

lemma hits_reach: "\<exists>N. \<forall>n. pNoGo (catchRun True (N + n) s) = fMax cfg"
proof -
  obtain e where "faEma (catchRun True 1 s) = Some e"
    using faEma_after_one by blast
  then obtain N where "\<forall>n. pNoGo (catchRun True (N + n) (catchRun True 1 s)) = fMax cfg"
    using hits_reach_some by blast
  then have "\<forall>n. pNoGo (catchRun True ((1 + N) + n) s) = fMax cfg"
    by (simp add: catchRun_add [symmetric] add.assoc del: One_nat_def)
  then show ?thesis by blast
qed

lemma misses_reach: "\<exists>N. \<forall>n. pNoGo (catchRun False (N + n) s) = fBase cfg"
proof -
  obtain e where "faEma (catchRun False 1 s) = Some e"
    using faEma_after_one by blast
  then obtain N where "\<forall>n. pNoGo (catchRun False (N + n) (catchRun False 1 s)) = fBase cfg"
    using misses_reach_some by blast
  then have "\<forall>n. pNoGo (catchRun False ((1 + N) + n) s) = fBase cfg"
    by (simp add: catchRun_add [symmetric] add.assoc del: One_nat_def)
  then show ?thesis by blast
qed

text \<open>
  C8: from any state of the controller, while every reported trial is a catch trial with
  \<^verbatim>\<open>responded\<close> true, \<^verbatim>\<open>pNoGo\<close> never decreases from one trial to the next, and
  from some trial on it equals \<open>fMax\<close> for good; while every reported trial is a catch
  trial with \<^verbatim>\<open>responded\<close> false, from some trial on it equals \<open>fBase\<close> for good.
\<close>

theorem catch_runs_saturate:
  "pNoGo (catchRun True n s) \<le> pNoGo (catchRun True (Suc n) s)
   \<and> (\<exists>N. \<forall>n. pNoGo (catchRun True (N + n) s) = fMax cfg)
   \<and> (\<exists>N. \<forall>n. pNoGo (catchRun False (N + n) s) = fBase cfg)"
  using hit_step_mono [of "catchRun True n s"] hits_reach [of s] misses_reach [of s]
  by (simp add: catchRun_Suc)

section \<open>Properties of the staircase wrapper\<close>

subsection \<open>The stimulus grid\<close>

lemma length_grid: "length magnitudeGridDva = 40"
  by (simp add: magnitudeGridDva_def linspace_def)

lemma grid_nth: "n < 40 \<Longrightarrow> magnitudeGridDva ! n = 0.05 + real n * (2.45 / 39)"
  by (simp add: magnitudeGridDva_def linspace_def)

lemma grid_pos: "\<forall>a \<in> set magnitudeGridDva. 0 < a"
  by (auto simp: magnitudeGridDva_def linspace_def intro: add_pos_nonneg)

lemma grid_nonempty: "magnitudeGridDva \<noteq> []"
  by (simp add: magnitudeGridDva_def linspace_def)

lemma grid_0: "magnitudeGridDva ! 0 = 0.05"
  using grid_nth [of 0] by simp

lemma grid_ascending: "sorted_wrt (<) magnitudeGridDva"
  unfolding sorted_wrt_iff_nth_less
  by (simp add: length_grid grid_nth)

subsection \<open>The psychometric function\<close>

lemma pWeibull_strict:
  assumes "0 < alpha" "0 < beta" "0 < 1 - guess - lapse" "0 < s" "s < t"
  shows "pWeibull s alpha beta guess lapse < pWeibull t alpha beta guess lapse"
proof -
  have "s / alpha < t / alpha" "0 \<le> s / alpha"
    using assms by (simp_all add: divide_strict_right_mono)
  then have "(s / alpha) powr beta < (t / alpha) powr beta"
    using assms(2) by (intro powr_less_mono2) simp_all
  then have "1 - exp (- ((s / alpha) powr beta)) < 1 - exp (- ((t / alpha) powr beta))"
    by simp
  then show ?thesis
    unfolding pWeibull_def using assms(3) by (simp add: mult_strict_left_mono)
qed

lemma pWeibull_limit:
  assumes "0 < alpha" "0 < beta"
  shows "((\<lambda>s. pWeibull s alpha beta guess lapse) \<longlongrightarrow> 1 - lapse) at_top"
proof -
  have div: "LIM s at_top. s / alpha :> at_top"
    using assms(1) by (simp add: filterlim_at_top_mult_tendsto_pos [OF tendsto_const, of "inverse alpha"] divide_inverse filterlim_ident)
  have "LIM s at_top. beta * ln (s / alpha) :> at_top"
    by (rule filterlim_tendsto_pos_mult_at_top [OF tendsto_const assms(2)])
       (rule filterlim_compose [OF ln_at_top div])
  then have "LIM s at_top. exp (beta * ln (s / alpha)) :> at_top"
    by (rule filterlim_compose [OF exp_at_top])
  moreover have "eventually (\<lambda>s. exp (beta * ln (s / alpha)) = (s / alpha) powr beta) at_top"
    using eventually_gt_at_top [of 0] by eventually_elim (use assms in \<open>simp add: powr_def\<close>)
  then have "(LIM s at_top. exp (beta * ln (s / alpha)) :> at_top)
             = (LIM s at_top. (s / alpha) powr beta :> at_top)"
    by (rule filterlim_cong [OF refl refl])
  ultimately have "LIM s at_top. (s / alpha) powr beta :> at_top"
    by simp
  then have "LIM s at_top. - ((s / alpha) powr beta) :> at_bot"
    by (simp add: filterlim_uminus_at_bot)
  then have "((\<lambda>s. exp (- ((s / alpha) powr beta))) \<longlongrightarrow> 0) at_top"
    by (rule filterlim_compose [OF exp_at_bot])
  then have "((\<lambda>s. guess + (1 - guess - lapse) * (1 - exp (- ((s / alpha) powr beta))))
              \<longlongrightarrow> guess + (1 - guess - lapse) * (1 - 0)) at_top"
    by (intro tendsto_intros)
  then show ?thesis
    by (simp add: pWeibull_def)
qed

text \<open>
  C7: for a positive threshold \<^verbatim>\<open>alpha\<close>, a positive slope \<^verbatim>\<open>beta\<close> and
  \<open>1 - guess - lapse > 0\<close>, \<^verbatim>\<open>pWeibull\<close> is strictly increasing in the stimulus
  intensity on the positive reals, and it tends to \<open>1 - lapse\<close> as the intensity
  grows without bound.
\<close>

theorem pWeibull_increasing:
  assumes "0 < alpha" "0 < beta" "0 < 1 - guess - lapse"
  shows "(\<forall>s t. 0 < s \<and> s < t \<longrightarrow> pWeibull s alpha beta guess lapse < pWeibull t alpha beta guess lapse)
         \<and> ((\<lambda>s. pWeibull s alpha beta guess lapse) \<longlongrightarrow> 1 - lapse) at_top"
  using pWeibull_strict [OF assms] pWeibull_limit [OF assms(1,2)] by blast

theorem pWeibull_increasing_witness:
  "(0::real) < 0.6 \<and> (0::real) < 3 \<and> (0::real) < 1 - 0 - 0.01
   \<and> pWeibull 0.5 0.6 3 0 0.01 < pWeibull 1 0.6 3 0 0.01
   \<and> ((\<lambda>s. pWeibull s 0.6 3 0 0.01) \<longlongrightarrow> 1 - 0.01) at_top"
proof -
  have h: "(0::real) < 0.6" "(0::real) < 3" "(0::real) < 1 - 0 - 0.01"
    by simp_all
  have "(0::real) < 0.5 \<and> (0.5::real) < 1" by simp
  with pWeibull_increasing [OF h] have "pWeibull 0.5 0.6 3 0 0.01 < pWeibull 1 0.6 3 0 0.01"
    "((\<lambda>s. pWeibull s 0.6 3 0 0.01) \<longlongrightarrow> 1 - 0.01) at_top"
    by blast+
  with h show ?thesis by blast
qed

subsection \<open>Context lookup\<close>

lemma soaIdx_eq:
  "soaIdx (contextToIndices c) =
     (if 100 \<le> soaMs c \<and> soaMs c < 200 then 0
      else if 200 \<le> soaMs c \<and> soaMs c < 350 then 1
      else if 350 \<le> soaMs c \<and> soaMs c < 550 then 2
      else if 550 \<le> soaMs c \<and> soaMs c < 900 then 3 else - 1)"
  by (simp add: contextToIndices_def findIndex_def SOA_BINS_def)

lemma eccIdx_eq:
  "eccIdx (contextToIndices c) =
     (if 0 \<le> eccPx c \<and> eccPx c < 80 then 0
      else if 80 \<le> eccPx c \<and> eccPx c < 140 then 1
      else if 140 \<le> eccPx c \<and> eccPx c < 200 then 2
      else if 200 \<le> eccPx c \<and> eccPx c < 300 then 3 else - 1)"
  by (simp add: contextToIndices_def findIndex_def ECC_BINS_def)

text \<open>
  C5: for the two dimensions with bins, a value inside the half-open range
  \<open>[lo, hi)\<close> of a configured bin gets that bin's index, and a value at or above the
  last bin's \<open>hi\<close> or below the first bin's \<open>lo\<close> gets the sentinel -1.
  \<^verbatim>\<open>contextToIndices\<close> has no path that throws.
\<close>

theorem lookup_bins:
  "(\<forall>n < length SOA_BINS. inRange (soaMs c) (SOA_BINS ! n) \<longrightarrow> soaIdx (contextToIndices c) = int n)
   \<and> (soaMs c \<ge> snd (last SOA_BINS) \<or> soaMs c < fst (hd SOA_BINS) \<longrightarrow> soaIdx (contextToIndices c) = - 1)
   \<and> (\<forall>n < length ECC_BINS. inRange (eccPx c) (ECC_BINS ! n) \<longrightarrow> eccIdx (contextToIndices c) = int n)
   \<and> (eccPx c \<ge> snd (last ECC_BINS) \<or> eccPx c < fst (hd ECC_BINS) \<longrightarrow> eccIdx (contextToIndices c) = - 1)"
proof (intro conjI allI impI)
  fix n assume "n < length SOA_BINS" "inRange (soaMs c) (SOA_BINS ! n)"
  then show "soaIdx (contextToIndices c) = int n"
    by (auto simp: soaIdx_eq SOA_BINS_def less_Suc_eq numeral_eq_Suc nth_Cons')
next
  fix n assume "n < length ECC_BINS" "inRange (eccPx c) (ECC_BINS ! n)"
  then show "eccIdx (contextToIndices c) = int n"
    by (auto simp: eccIdx_eq ECC_BINS_def less_Suc_eq numeral_eq_Suc nth_Cons')
next
  assume "soaMs c \<ge> snd (last SOA_BINS) \<or> soaMs c < fst (hd SOA_BINS)"
  then show "soaIdx (contextToIndices c) = - 1"
    by (auto simp: soaIdx_eq SOA_BINS_def)
next
  assume "eccPx c \<ge> snd (last ECC_BINS) \<or> eccPx c < fst (hd ECC_BINS)"
  then show "eccIdx (contextToIndices c) = - 1"
    by (auto simp: eccIdx_eq ECC_BINS_def)
qed


lemma angGroup_0: "angGroup 0 = ''E''"
  by (simp add: angGroup_def js_rem_def)

lemma inside_indices: "contextToIndices insideContext = \<lparr>soaIdx = 0, eccIdx = 0, angIdx = 0\<rparr>"
  by (simp add: contextToIndices_def insideContext_def findIndex_def SOA_BINS_def ECC_BINS_def
      ANG_GROUPS_def angGroup_0)

lemma outside_indices: "contextToIndices outsideContext = \<lparr>soaIdx = - 1, eccIdx = 0, angIdx = 0\<rparr>"
  by (simp add: contextToIndices_def outsideContext_def findIndex_def SOA_BINS_def ECC_BINS_def
      ANG_GROUPS_def angGroup_0)

theorem lookup_bins_witness:
  "inRange (soaMs insideContext) (SOA_BINS ! 0) \<and> soaIdx (contextToIndices insideContext) = 0
   \<and> inRange (eccPx insideContext) (ECC_BINS ! 0) \<and> eccIdx (contextToIndices insideContext) = 0
   \<and> soaMs outsideContext \<ge> snd (last SOA_BINS) \<and> soaIdx (contextToIndices outsideContext) = - 1"
proof -
  have a: "inRange (soaMs insideContext) (SOA_BINS ! 0)"
    and b: "inRange (eccPx insideContext) (ECC_BINS ! 0)"
    and c: "soaMs outsideContext \<ge> snd (last SOA_BINS)"
    by (simp_all add: insideContext_def outsideContext_def SOA_BINS_def ECC_BINS_def)
  have l: "0 < length SOA_BINS" "0 < length ECC_BINS"
    by (simp_all add: SOA_BINS_def ECC_BINS_def)
  show ?thesis
    using lookup_bins [of insideContext] lookup_bins [of outsideContext] a b c l by fastforce
qed

subsection \<open>Unmatched contexts\<close>

text \<open>
  C6: for a context whose lookup gives the sentinel -1 in some dimension,
  \<^verbatim>\<open>updateQuestWithOutcome\<close> returns with every engine as it was and without calling
  one, and \<^verbatim>\<open>suggestDeltaForContext\<close> returns the fallback 0.6 whatever the target is.
\<close>

theorem unmatched_noop:
  assumes "soaIdx (contextToIndices c) = - 1 \<or> eccIdx (contextToIndices c) = - 1
           \<or> angIdx (contextToIndices c) = - 1"
  shows "updateQuestWithOutcome api engines c delta resp = (engines, Returned)
         \<and> suggestDeltaForContext api engines c target = (engines, Inr 0.6)"
proof -
  have "unmatched (contextToIndices c)"
    using assms by (auto simp: unmatched_def)
  then show ?thesis
    by (simp add: updateQuestWithOutcome_def suggestDeltaForContext_def Let_def)
qed

theorem unmatched_noop_witness:
  "soaIdx (contextToIndices outsideContext) = - 1
   \<and> updateQuestWithOutcome stubApi stubEngines outsideContext 0.5 True = (stubEngines, Returned)
   \<and> suggestDeltaForContext stubApi stubEngines outsideContext 0.7 = (stubEngines, Inr 0.6)
   \<and> suggestDeltaForContext stubApi stubEngines outsideContext 0.2 = (stubEngines, Inr 0.6)"
proof -
  have h: "soaIdx (contextToIndices outsideContext) = - 1"
    by (simp add: outside_indices)
  then have h': "soaIdx (contextToIndices outsideContext) = - 1 \<or> eccIdx (contextToIndices outsideContext) = - 1
           \<or> angIdx (contextToIndices outsideContext) = - 1" by simp
  show ?thesis
    using h unmatched_noop [OF h', of stubApi stubEngines "0.5" True "0.7"]
      unmatched_noop [OF h', of stubApi stubEngines "0.5" True "0.2"]
    by simp
qed

subsection \<open>The proposal\<close>

lemma targetScan_Some:
  "(targetScan est target vs best (Some b) = best \<and> (\<forall>x \<in> set vs. b \<le> targetDist est target x))
   \<or> (\<exists>pre post. vs = pre @ targetScan est target vs best (Some b) # post
        \<and> targetDist est target (targetScan est target vs best (Some b)) < b
        \<and> (\<forall>x \<in> set pre. targetDist est target (targetScan est target vs best (Some b)) < targetDist est target x)
        \<and> (\<forall>x \<in> set post. targetDist est target (targetScan est target vs best (Some b)) \<le> targetDist est target x))"
proof (induction vs arbitrary: best b)
  case Nil
  then show ?case by simp
next
  case (Cons v vs)
  let ?D = "targetDist est target"
  show ?case
  proof (cases "?D v < b")
    case True
    then have eq: "targetScan est target (v # vs) best (Some b) = targetScan est target vs v (Some (?D v))"
      by (simp add: targetDist_def Let_def)
    let ?r = "targetScan est target vs v (Some (?D v))"
    from Cons.IH [of v "?D v"] show ?thesis
    proof (elim disjE conjE exE)
      assume "?r = v" "\<forall>x\<in>set vs. ?D v \<le> ?D x"
      then have "v # vs = [] @ ?r # vs \<and> ?D ?r < b \<and> (\<forall>x\<in>set []. ?D ?r < ?D x) \<and> (\<forall>x\<in>set vs. ?D ?r \<le> ?D x)"
        using True by simp
      then show ?thesis unfolding eq by blast
    next
      fix pre post
      assume "vs = pre @ ?r # post" "?D ?r < ?D v"
        "\<forall>x\<in>set pre. ?D ?r < ?D x" "\<forall>x\<in>set post. ?D ?r \<le> ?D x"
      then have "v # vs = (v # pre) @ ?r # post \<and> ?D ?r < b \<and> (\<forall>x\<in>set (v # pre). ?D ?r < ?D x) \<and> (\<forall>x\<in>set post. ?D ?r \<le> ?D x)"
        using True by simp
      then show ?thesis unfolding eq by blast
    qed
  next
    case False
    then have eq: "targetScan est target (v # vs) best (Some b) = targetScan est target vs best (Some b)"
      by (simp add: targetDist_def Let_def)
    let ?r = "targetScan est target vs best (Some b)"
    from Cons.IH [of best b] show ?thesis
    proof (elim disjE conjE exE)
      assume "?r = best" "\<forall>x\<in>set vs. b \<le> ?D x"
      then show ?thesis unfolding eq using False by simp
    next
      fix pre post
      assume "vs = pre @ ?r # post" "?D ?r < b"
        "\<forall>x\<in>set pre. ?D ?r < ?D x" "\<forall>x\<in>set post. ?D ?r \<le> ?D x"
      then have "v # vs = (v # pre) @ ?r # post \<and> ?D ?r < b \<and> (\<forall>x\<in>set (v # pre). ?D ?r < ?D x) \<and> (\<forall>x\<in>set post. ?D ?r \<le> ?D x)"
        using False by simp
      then show ?thesis unfolding eq by blast
    qed
  qed
qed

lemma targetScan_None:
  assumes "vs \<noteq> []"
  shows "\<exists>pre post. vs = pre @ targetScan est target vs best None # post
        \<and> (\<forall>x \<in> set pre. targetDist est target (targetScan est target vs best None) < targetDist est target x)
        \<and> (\<forall>x \<in> set post. targetDist est target (targetScan est target vs best None) \<le> targetDist est target x)"
proof -
  let ?D = "targetDist est target"
  obtain v ws where vs: "vs = v # ws" using assms by (cases vs) auto
  have eq: "targetScan est target vs best None = targetScan est target ws v (Some (?D v))"
    by (simp add: vs targetDist_def Let_def)
  let ?r = "targetScan est target ws v (Some (?D v))"
  from targetScan_Some [of est target ws v "?D v"] show ?thesis
  proof (elim disjE conjE exE)
    assume "?r = v" "\<forall>x\<in>set ws. ?D v \<le> ?D x"
    then have "vs = [] @ ?r # ws \<and> (\<forall>x\<in>set []. ?D ?r < ?D x) \<and> (\<forall>x\<in>set ws. ?D ?r \<le> ?D x)"
      by (simp add: vs)
    then show ?thesis unfolding eq by blast
  next
    fix pre post
    assume "ws = pre @ ?r # post" "?D ?r < ?D v"
      "\<forall>x\<in>set pre. ?D ?r < ?D x" "\<forall>x\<in>set post. ?D ?r \<le> ?D x"
    then have "vs = (v # pre) @ ?r # post \<and> (\<forall>x\<in>set (v # pre). ?D ?r < ?D x) \<and> (\<forall>x\<in>set post. ?D ?r \<le> ?D x)"
      by (simp add: vs)
    then show ?thesis unfolding eq by blast
  qed
qed

lemma targetScan_index:
  assumes "vs \<noteq> []"
  shows "\<exists>n < length vs. targetScan est target vs best None = vs ! n
        \<and> (\<forall>m < length vs. targetDist est target (vs ! n) \<le> targetDist est target (vs ! m))
        \<and> (\<forall>m < n. targetDist est target (vs ! n) < targetDist est target (vs ! m))"
proof -
  let ?D = "targetDist est target"
  let ?r = "targetScan est target vs best None"
  obtain pre post where d: "vs = pre @ ?r # post"
    and pre: "\<forall>x \<in> set pre. ?D ?r < ?D x" and post: "\<forall>x \<in> set post. ?D ?r \<le> ?D x"
    using targetScan_None [OF assms, of est target best] by blast
  have n: "length pre < length vs" by (subst d) simp
  have r: "vs ! length pre = ?r" by (subst d) simp
  have all: "?D ?r \<le> ?D x" if "x \<in> set vs" for x
  proof -
    from that have "x \<in> set pre \<or> x = ?r \<or> x \<in> set post" by (subst (asm) d) auto
    then show ?thesis using pre post by auto
  qed
  have before: "?D ?r < ?D (vs ! m)" if "m < length pre" for m
  proof -
    have "vs ! m = pre ! m" using that by (subst d) (simp add: nth_append)
    then show ?thesis using pre that by simp
  qed
  show ?thesis
    using n r all before by (intro exI [of _ "length pre"]) simp
qed

text \<open>
  C1: when the context maps to a cell and the cell's \<^verbatim>\<open>getEstimates('mode')\<close> returns
  an array of at least four numbers, \<^verbatim>\<open>suggestDeltaForContext\<close> returns a value of
  the ascending grid whose modelled probability is nearest to the target over the whole
  grid, and among equally near values the one with the smallest index.
\<close>

theorem proposal_targets:
  assumes "\<not> unmatched (contextToIndices c)"
    and "enginesRow engines (contextToIndices c) = Inr cols"
    and "elemAt cols (angIdx (contextToIndices c)) = Some eng"
    and "getStimParams api eng = (eng1, Inr chosen)"
    and "getEstimates api ''mode'' eng1 = (eng2, Inr (Arr est))"
    and "length est \<ge> 4"
  shows "sorted_wrt (<) magnitudeGridDva
         \<and> (\<exists>n < length magnitudeGridDva.
           snd (suggestDeltaForContext api engines c target) = Inr (magnitudeGridDva ! n)
           \<and> (\<forall>m < length magnitudeGridDva.
                 \<bar>pWeibull (magnitudeGridDva ! n) (est ! 0) (est ! 1) (est ! 2) (est ! 3) - target\<bar>
                 \<le> \<bar>pWeibull (magnitudeGridDva ! m) (est ! 0) (est ! 1) (est ! 2) (est ! 3) - target\<bar>)
           \<and> (\<forall>m < n.
                 \<bar>pWeibull (magnitudeGridDva ! n) (est ! 0) (est ! 1) (est ! 2) (est ! 3) - target\<bar>
                 < \<bar>pWeibull (magnitudeGridDva ! m) (est ! 0) (est ! 1) (est ! 2) (est ! 3) - target\<bar>))"
proof -
  have res: "snd (suggestDeltaForContext api engines c target)
             = Inr (targetScan est target magnitudeGridDva chosen None)"
    using assms by (simp add: suggestDeltaForContext_def Let_def)
  from targetScan_index [OF grid_nonempty, of est target chosen] grid_ascending show ?thesis
    unfolding res targetDist_def by simp
qed

text \<open>
  An instance: for the target 0 the nearest probability is the least one, which the
  increasing psychometric function has at the first grid value, 0.05.
\<close>

lemma stub_dist_first:
  assumes "n < length magnitudeGridDva"
    and "\<bar>pWeibull (magnitudeGridDva ! n) 0.6 3 0 0.01 - 0\<bar>
         \<le> \<bar>pWeibull (magnitudeGridDva ! 0) 0.6 3 0 0.01 - 0\<bar>"
  shows "n = 0"
proof (rule ccontr)
  assume "n \<noteq> 0"
  then have "0 < n" by simp
  then have lt: "magnitudeGridDva ! 0 < magnitudeGridDva ! n"
    using grid_ascending assms(1) by (simp add: sorted_wrt_iff_nth_less)
  have pos0: "0 < magnitudeGridDva ! 0" by (simp add: grid_0)
  have "pWeibull (magnitudeGridDva ! 0) 0.6 3 0 0.01 < pWeibull (magnitudeGridDva ! n) 0.6 3 0 0.01"
    by (rule pWeibull_strict [OF _ _ _ pos0 lt]) simp_all
  moreover have "0 \<le> pWeibull v 0.6 3 0 0.01" for v
    by (simp add: pWeibull_def)
  ultimately show False using assms(2) by (simp add: abs_of_nonneg)
qed

theorem proposal_targets_witness:
  "\<not> unmatched (contextToIndices insideContext)
   \<and> enginesRow stubEngines (contextToIndices insideContext) = Inr [1, 0]
   \<and> elemAt [1, 0] (angIdx (contextToIndices insideContext)) = Some 1
   \<and> getStimParams stubApi 1 = (1, Inr 1)
   \<and> getEstimates stubApi ''mode'' 1 = (1, Inr (Arr [0.6, 3, 0, 0.01]))
   \<and> length [0.6, 3, 0, 0.01 :: real] \<ge> 4
   \<and> snd (suggestDeltaForContext stubApi stubEngines insideContext 0) = Inr 0.05"
proof -
  have h1: "\<not> unmatched (contextToIndices insideContext)"
    by (simp add: inside_indices unmatched_def)
  have h2: "enginesRow stubEngines (contextToIndices insideContext) = Inr [1, 0]"
    by (simp add: inside_indices enginesRow_def elemAt_def stubEngines_def)
  have h3: "elemAt [1, 0] (angIdx (contextToIndices insideContext)) = Some 1"
    by (simp add: inside_indices elemAt_def)
  have h4: "getStimParams stubApi 1 = (1, Inr 1)"
    by (simp add: stubApi_def)
  have h5: "getEstimates stubApi ''mode'' 1 = (1, Inr (Arr [0.6, 3, 0, 0.01]))"
    by (simp add: stubApi_def)
  have h6: "length [0.6, 3, 0, 0.01 :: real] \<ge> 4"
    by simp
  obtain n where n: "n < length magnitudeGridDva"
    "snd (suggestDeltaForContext stubApi stubEngines insideContext 0) = Inr (magnitudeGridDva ! n)"
    "\<forall>m < length magnitudeGridDva.
       \<bar>pWeibull (magnitudeGridDva ! n) 0.6 3 0 0.01 - 0\<bar>
       \<le> \<bar>pWeibull (magnitudeGridDva ! m) 0.6 3 0 0.01 - 0\<bar>"
    using proposal_targets [OF h1 h2 h3 h4 h5 h6, of 0] by auto
  have "0 < length magnitudeGridDva"
    by (simp add: length_grid)
  with n(3) have "\<bar>pWeibull (magnitudeGridDva ! n) 0.6 3 0 0.01 - 0\<bar>
       \<le> \<bar>pWeibull (magnitudeGridDva ! 0) 0.6 3 0 0.01 - 0\<bar>"
    by blast
  then have "n = 0" by (rule stub_dist_first [OF n(1)])
  with n(2) have "snd (suggestDeltaForContext stubApi stubEngines insideContext 0) = Inr 0.05"
    by (simp add: grid_0)
  with h1 h2 h3 h4 h5 h6 show ?thesis
    by (intro conjI)
qed

subsection \<open>The export\<close>

lemma forEachFrom_out:
  assumes "\<And>i x out. snd (f i x out) = out @ h i x"
  shows "snd (forEachFrom i f xs out) = out @ concat (map (\<lambda>(i, x). h i x) (enumerate i xs))"
proof (induction xs arbitrary: i out)
  case Nil
  then show ?case by simp
next
  case (Cons x xs)
  obtain x1 out1 where f: "f i x out = (x1, out1)" by (cases "f i x out")
  obtain xs1 out2 where r: "forEachFrom (Suc i) f xs out1 = (xs1, out2)"
    by (cases "forEachFrom (Suc i) f xs out1")
  have step: "forEachFrom i f (x # xs) out = (x1 # xs1, out2)"
    by (simp add: f r)
  have "out1 = out @ h i x" using assms [of i x out] f by simp
  moreover have "out2 = out1 @ concat (map (\<lambda>(i, x). h i x) (enumerate (Suc i) xs))"
    using Cons.IH [of "Suc i" out1] r by simp
  ultimately show ?case unfolding step by simp
qed

lemma forEachFrom_state:
  assumes "\<And>i x out. x \<in> set xs \<Longrightarrow> fst (f i x out) = x"
  shows "fst (forEachFrom i f xs out) = xs"
  using assms
proof (induction xs arbitrary: i out)
  case Nil
  then show ?case by simp
next
  case (Cons x xs)
  obtain x1 out1 where f: "f i x out = (x1, out1)" by (cases "f i x out")
  obtain xs1 out2 where r: "forEachFrom (Suc i) f xs out1 = (xs1, out2)"
    by (cases "forEachFrom (Suc i) f xs out1")
  have step: "forEachFrom i f (x # xs) out = (x1 # xs1, out2)"
    by (simp add: f r)
  have "x1 = x" using Cons.prems [of x i out] f by simp
  moreover have "xs1 = xs" using Cons.IH [of "Suc i" out1] Cons.prems r by simp
  ultimately show ?case unfolding step by simp
qed

lemma exportCell_out: "snd (exportCell api i j k e out) = out @ cellRecord api i j k e"
  by (simp add: exportCell_def cellRecord_def split: prod.splits sum.splits)

lemma exportCell_state: "fst (exportCell api i j k e out) = fst (getEstimates api ''mean'' e)"
  by (simp add: exportCell_def split: prod.splits sum.splits)

lemma export_out: "snd (exportPosteriors api engines) = expectedRecords api engines"
  unfolding exportPosteriors_def expectedRecords_def
  by (simp add: forEachFrom_out [where h = "\<lambda>i rows. concat (map (\<lambda>(j, cols).
         concat (map (\<lambda>(k, e). cellRecord api i j k e) (enumerate 0 cols))) (enumerate 0 rows))"]
      forEachFrom_out [where h = "\<lambda>j cols. concat (map (\<lambda>(k, e). cellRecord api i j k e) (enumerate 0 cols))" for i]
      forEachFrom_out [where h = "\<lambda>k e. cellRecord api i j k e" for i j]
      exportCell_out)

lemma export_state:
  assumes "\<forall>e \<in> set (concat (concat engines)). fst (getEstimates api ''mean'' e) = e"
  shows "fst (exportPosteriors api engines) = engines"
  unfolding exportPosteriors_def
proof (rule forEachFrom_state)
  fix i rows out
  assume rows: "rows \<in> set engines"
  show "fst (forEachFrom 0 (\<lambda>j cols. forEachFrom 0 (\<lambda>k e. exportCell api i j k e) cols) rows out) = rows"
  proof (rule forEachFrom_state)
    fix j cols out'
    assume cols: "cols \<in> set rows"
    show "fst (forEachFrom 0 (\<lambda>k e. exportCell api i j k e) cols out') = cols"
    proof (rule forEachFrom_state)
      fix k e out''
      assume "e \<in> set cols"
      then have "e \<in> set (concat (concat engines))" using rows cols by auto
      with assms have "fst (getEstimates api ''mean'' e) = e" by blast
      then show "fst (exportCell api i j k e out'') = e"
        by (simp add: exportCell_state)
    qed
  qed
qed

lemma length_concat_enumerate:
  assumes "\<And>i x. x \<in> set xs \<Longrightarrow> length (h i x) = g x"
  shows "length (concat (map (\<lambda>(i, x). h i x) (enumerate n xs))) = sum_list (map g xs)"
  using assms by (induction xs arbitrary: n) simp_all

lemma length_concat_concat:
  "length (concat (concat xss)) = sum_list (map (\<lambda>rows. length (concat rows)) xss)"
  by (induction xss) simp_all

lemma export_count:
  assumes "\<forall>e \<in> set (concat (concat engines)). \<exists>est. snd (getEstimates api ''mean'' e) = Inr est"
  shows "length (expectedRecords api engines) = length (concat (concat engines))"
proof -
  have cell: "length (cellRecord api i j k e) = 1" if "e \<in> set (concat (concat engines))" for i j k e
  proof -
    from assms that obtain est where "snd (getEstimates api ''mean'' e) = Inr est" by blast
    then show ?thesis by (simp add: cellRecord_def)
  qed
  have cols: "length (concat (map (\<lambda>(k, e). cellRecord api i j k e) (enumerate 0 cols))) = length cols"
    if "cols \<in> set rows" "rows \<in> set engines" for i j cols rows
  proof -
    have "length (concat (map (\<lambda>(k, e). cellRecord api i j k e) (enumerate 0 cols))) = sum_list (map (\<lambda>e. 1) cols)"
      using that by (intro length_concat_enumerate cell) auto
    then show ?thesis by (simp add: sum_list_triv)
  qed
  have rows: "length (concat (map (\<lambda>(j, cols). concat (map (\<lambda>(k, e). cellRecord api i j k e) (enumerate 0 cols))) (enumerate 0 rows)))
              = length (concat rows)"
    if "rows \<in> set engines" for i rows
  proof -
    have "length (concat (map (\<lambda>(j, cols). concat (map (\<lambda>(k, e). cellRecord api i j k e) (enumerate 0 cols))) (enumerate 0 rows)))
          = sum_list (map length rows)"
      using that by (intro length_concat_enumerate cols)
    then show ?thesis by (simp add: length_concat)
  qed
  have "length (expectedRecords api engines) = sum_list (map (\<lambda>rows. length (concat rows)) engines)"
    unfolding expectedRecords_def by (intro length_concat_enumerate rows)
  then show ?thesis by (simp only: length_concat_concat)
qed

text \<open>
  C4, as the code has it: \<^verbatim>\<open>exportPosteriors\<close> returns, in partition order, one
  record for every cell whose \<^verbatim>\<open>getEstimates('mean')\<close> returns, with the first two
  entries of the estimate as \<^verbatim>\<open>alpha\<close> and \<^verbatim>\<open>beta\<close>, each of them
  \<^verbatim>\<open>undefined\<close> where the estimate is \<^verbatim>\<open>null\<close>, \<^verbatim>\<open>undefined\<close> or too short; a
  cell whose call throws gets no record. So there is one record per cell when no call
  throws. The function itself changes no engine: the engines are as they were whenever
  \<^verbatim>\<open>getEstimates('mean')\<close> leaves each of them as it was. No exception leaves the
  function, which its result type records.
\<close>

theorem export_records:
  "snd (exportPosteriors api engines) = expectedRecords api engines
   \<and> ((\<forall>e \<in> set (concat (concat engines)). \<exists>est. snd (getEstimates api ''mean'' e) = Inr est)
        \<longrightarrow> length (snd (exportPosteriors api engines)) = length (concat (concat engines)))
   \<and> ((\<forall>e \<in> set (concat (concat engines)). fst (getEstimates api ''mean'' e) = e)
        \<longrightarrow> fst (exportPosteriors api engines) = engines)"
  using export_out [of api engines] export_count [of engines api] export_state [of engines api]
  by simp

theorem export_records_witness:
  "list_all (\<lambda>e. fst (getEstimates stubApi ''mean'' e) = e) (concat (concat stubEngines))
   \<and> list_all (\<lambda>e. snd (getEstimates stubApi ''mean'' e) \<noteq> Inl EngineError) (concat (concat stubEngines))
   \<and> exportPosteriors stubApi stubEngines =
       (stubEngines,
        [\<lparr>dim = ''vector'', cell_i = 0, cell_j = 0, cell_k = 0, est_alpha = Some 0.6, est_beta = Some 3\<rparr>,
         \<lparr>dim = ''vector'', cell_i = 0, cell_j = 0, cell_k = 1, est_alpha = None, est_beta = None\<rparr>])"
proof -
  have pure: "\<forall>e \<in> set (concat (concat stubEngines)). fst (getEstimates stubApi ''mean'' e) = e"
    by (simp add: stubApi_def)
  have "expectedRecords stubApi stubEngines =
        [\<lparr>dim = ''vector'', cell_i = 0, cell_j = 0, cell_k = 0, est_alpha = Some 0.6, est_beta = Some 3\<rparr>,
         \<lparr>dim = ''vector'', cell_i = 0, cell_j = 0, cell_k = 1, est_alpha = None, est_beta = None\<rparr>]"
    by (simp add: expectedRecords_def cellRecord_def stubApi_def stubEngines_def)
  with pure export_records [of stubApi stubEngines]
  have "exportPosteriors stubApi stubEngines =
       (stubEngines,
        [\<lparr>dim = ''vector'', cell_i = 0, cell_j = 0, cell_k = 0, est_alpha = Some 0.6, est_beta = Some 3\<rparr>,
         \<lparr>dim = ''vector'', cell_i = 0, cell_j = 0, cell_k = 1, est_alpha = None, est_beta = None\<rparr>])"
    by (simp add: prod_eq_iff)
  moreover have "list_all (\<lambda>e. fst (getEstimates stubApi ''mean'' e) = e) (concat (concat stubEngines))"
    "list_all (\<lambda>e. snd (getEstimates stubApi ''mean'' e) \<noteq> Inl EngineError) (concat (concat stubEngines))"
    by (simp_all add: stubApi_def stubEngines_def)
  ultimately show ?thesis by blast
qed

text \<open>
  The claim as the specification has it fails: a cell whose \<^verbatim>\<open>getEstimates('mean')\<close>
  throws is left out of the export, so there are fewer records than cells.
\<close>

theorem export_omits_faulty_cell:
  "length (snd (exportPosteriors faultyApi stubEngines)) < length (concat (concat stubEngines))"
  by (simp add: exportPosteriors_def exportCell_def faultyApi_def stubEngines_def)

subsection \<open>The prior over the threshold grid\<close>

lemma foldl_plus: "foldl (\<lambda>x y. x + y) a xs = a + sum_list xs" for a :: real
  by (induction xs arbitrary: a) simp_all

lemma sum_list_div: "sum_list (map (\<lambda>p. p / Z) xs) = sum_list xs / Z" for Z :: real
  by (induction xs) (simp_all add: add_divide_distrib)

lemma sum_list_pos_real: "xs \<noteq> [] \<Longrightarrow> \<forall>x \<in> set xs. 0 < x \<Longrightarrow> 0 < sum_list xs" for xs :: "real list"
proof (induction xs)
  case Nil
  then show ?case by simp
next
  case (Cons x xs)
  then show ?case by (cases xs) (auto intro: add_pos_pos)
qed

lemma prior_eq:
  "alphaPriorOnGrid g soaI eccI angI base kSOA kECC kANG sigma =
     (let pdf = map (lognormalPdf (ln (base * ((1 + kSOA * soaI) * (1 + kECC * eccI) * (1 + kANG * angI)))) sigma) g;
          Z = (if sum_list pdf = 0 then 1 else sum_list pdf)
      in map (\<lambda>p. p / Z) pdf)"
  by (simp add: alphaPriorOnGrid_def Let_def foldl_plus)

lemma prior_sums_to_1:
  assumes "sum_list (map (lognormalPdf (ln (base * ((1 + kSOA * soaI) * (1 + kECC * eccI) * (1 + kANG * angI)))) sigma) g) \<noteq> 0"
  shows "sum_list (alphaPriorOnGrid g soaI eccI angI base kSOA kECC kANG sigma) = 1"
proof -
  let ?mu = "ln (base * ((1 + kSOA * soaI) * (1 + kECC * eccI) * (1 + kANG * angI)))"
  let ?pdf = "map (lognormalPdf ?mu sigma) g"
  have "alphaPriorOnGrid g soaI eccI angI base kSOA kECC kANG sigma
             = map (\<lambda>p. p / sum_list ?pdf) ?pdf"
    using assms by (simp add: prior_eq Let_def)
  moreover have "sum_list (map (\<lambda>p. p / sum_list ?pdf) ?pdf) = sum_list ?pdf / sum_list ?pdf"
    by (rule sum_list_div)
  ultimately show ?thesis
    using assms by simp
qed

lemma prior_all_zero:
  assumes "\<forall>a \<in> set g. lognormalPdf (ln (base * ((1 + kSOA * soaI) * (1 + kECC * eccI) * (1 + kANG * angI)))) sigma a = 0"
  shows "alphaPriorOnGrid g soaI eccI angI base kSOA kECC kANG sigma = map (\<lambda>a. 0) g"
proof -
  let ?mu = "ln (base * ((1 + kSOA * soaI) * (1 + kECC * eccI) * (1 + kANG * angI)))"
  have pdf: "map (lognormalPdf ?mu sigma) g = map (\<lambda>a. 0) g"
    using assms by (intro map_cong) simp_all
  have "sum_list (map (\<lambda>a. 0::real) g) = 0"
    by (induction g) simp_all
  then show ?thesis
    unfolding prior_eq pdf by (simp add: Let_def)
qed

lemma lognormalPdf_pos:
  assumes "0 < a" "0 < sigma" "(ln a - mu) ^ 2 \<le> 745.14 * (2 * sigma * sigma)"
  shows "0 < lognormalPdf mu sigma a"
proof -
  have "0 < 2 * sigma * sigma" using assms(2) by simp
  then have "(ln a - mu) ^ 2 / (2 * sigma * sigma) \<le> 745.14"
    using assms(3) by (simp add: pos_divide_le_eq)
  then have "\<not> - ((ln a - mu) ^ 2) / (2 * sigma * sigma) < - 745.14"
    by simp
  then have "Math_exp (- ((ln a - mu) ^ 2) / (2 * sigma * sigma)) = exp (- ((ln a - mu) ^ 2) / (2 * sigma * sigma))"
    by (simp only: Math_exp_def if_False)
  then show ?thesis
    using assms(1,2) by (simp add: lognormalPdf_def)
qed

lemma lognormalPdf_underflow:
  assumes "745.14 * (2 * sigma * sigma) < (ln a - mu) ^ 2" "0 < sigma"
  shows "lognormalPdf mu sigma a = 0"
proof -
  have "0 < 2 * sigma * sigma" using assms(2) by simp
  then have "745.14 < (ln a - mu) ^ 2 / (2 * sigma * sigma)"
    using assms(1) by (simp add: pos_less_divide_eq)
  then have "- ((ln a - mu) ^ 2) / (2 * sigma * sigma) < - 745.14"
    by simp
  then have "Math_exp (- ((ln a - mu) ^ 2) / (2 * sigma * sigma)) = 0"
    by (simp only: Math_exp_def if_True)
  then show ?thesis
    by (simp add: lognormalPdf_def)
qed

lemma exp_sixteenth: "exp (1 / 16 :: real) \<le> 273 / 256"
  using exp_bound [of "1 / 16 :: real"] by (simp add: power2_eq_square)

lemma exp_double_le: "exp x \<le> b \<Longrightarrow> b * b \<le> c \<Longrightarrow> exp (2 * x) \<le> c" for x :: real
proof -
  assume b: "exp x \<le> b" and c: "b * b \<le> c"
  have "0 \<le> b" using b exp_ge_zero [of x] by linarith
  have "exp (2 * x) = exp x * exp x" by (simp add: exp_add [symmetric])
  also have "\<dots> \<le> b * b" using b \<open>0 \<le> b\<close> by (intro mult_mono) simp_all
  finally show ?thesis using c by simp
qed

lemma exp_mult_le: "exp x \<le> b \<Longrightarrow> exp y \<le> c \<Longrightarrow> exp (x + y) \<le> b * c" for x :: real
proof -
  assume b: "exp x \<le> b" and c: "exp y \<le> c"
  have "0 \<le> b" using b exp_ge_zero [of x] by linarith
  then have "exp x * exp y \<le> b * c" using b c by (intro mult_mono) simp_all
  then show ?thesis by (simp add: exp_add)
qed

lemma exp_217_16: "exp (217 / 16 :: real) \<le> 5000000 / 3"
proof -
  have e8: "exp (1 / 8 :: real) \<le> 1.1373"
    using exp_double_le [OF exp_sixteenth, of "1.1373"] by simp
  have e4: "exp (1 / 4 :: real) \<le> 1.2935"
    using exp_double_le [OF e8, of "1.2935"] by simp
  have e2: "exp (1 / 2 :: real) \<le> 1.6732"
    using exp_double_le [OF e4, of "1.6732"] by simp
  have e1: "exp (1 :: real) \<le> 2.8"
    using exp_double_le [OF e2, of "2.8"] by simp
  have x2: "exp (2 :: real) \<le> 7.84"
    using exp_double_le [OF e1, of "7.84"] by simp
  have x4: "exp (4 :: real) \<le> 61.5"
    using exp_double_le [OF x2, of "61.5"] by simp
  have x8: "exp (8 :: real) \<le> 3783"
    using exp_double_le [OF x4, of 3783] by simp
  have "exp (8 + (4 + (1 + (1 / 2 + 1 / 16))) :: real) \<le> 3783 * (61.5 * (2.8 * (1.6732 * (273 / 256))))"
    by (intro exp_mult_le x8 x4 e1 e2 exp_sixteenth)
  then show ?thesis by simp
qed

lemma ln_big: "217 / 16 \<le> ln (a / 0.6)" if "1000000 \<le> a" for a :: real
proof -
  have "exp (217 / 16 :: real) \<le> a / 0.6"
    using exp_217_16 that by simp
  then show ?thesis
    using that by (subst ln_ge_iff) simp_all
qed

lemma underflow_at: "lognormalPdf (ln (0.6 * ((1 + 0.20 * 0) * (1 + 0.20 * 0) * (1 + 0.05 * 0)))) 0.35 a = 0"
  if "1000000 \<le> a" for a :: real
proof (rule lognormalPdf_underflow)
  have pos: "0 < a" using that by simp
  have "ln (a / 0.6) = ln a - ln 0.6"
    using pos by (intro ln_divide_pos) simp_all
  then have "ln a - ln 0.6 = ln (a / 0.6)"
    by simp
  moreover have "(217 / 16) ^ 2 \<le> ln (a / 0.6) ^ 2"
    using ln_big [OF that] by (intro power_mono) simp_all
  ultimately show "745.14 * (2 * 0.35 * 0.35) < (ln a - ln (0.6 * ((1 + 0.20 * 0) * (1 + 0.20 * 0) * (1 + 0.05 * 0)))) ^ 2"
    by (simp add: power2_eq_square)
qed simp

lemma grid_range: "a \<in> set magnitudeGridDva \<Longrightarrow> 0.05 \<le> a \<and> a \<le> 2.5"
proof -
  assume "a \<in> set magnitudeGridDva"
  then obtain n where n: "n < 40" "a = magnitudeGridDva ! n"
    by (auto simp: in_set_conv_nth length_grid)
  then have a: "a = 0.05 + real n * (2.45 / 39)"
    by (simp add: grid_nth)
  have "real n \<le> 39" using n(1) by simp
  then have "real n * (2.45 / 39) \<le> 39 * (2.45 / 39)"
    by (intro mult_right_mono) simp_all
  then show ?thesis unfolding a by simp
qed

lemma ln_grid: "a \<in> set magnitudeGridDva \<Longrightarrow> - 5 \<le> ln a \<and> ln a \<le> 3 / 2"
proof -
  assume "a \<in> set magnitudeGridDva"
  then have a: "0.05 \<le> a" "a \<le> 2.5" using grid_range by blast+
  then have pos: "0 < a" by simp
  have "(2::real) ^ 5 \<le> exp 1 ^ 5"
    using exp_ge_add_one_self [of 1] by (intro power_mono) simp_all
  then have "(32::real) \<le> exp 5"
    using exp_of_nat_mult [of 5 "1::real"] by simp
  then have "exp (- 5 :: real) \<le> 1 / 32"
    by (simp add: exp_minus field_simps)
  then have "exp (- 5 :: real) \<le> a" using a(1) by simp
  then have "- 5 \<le> ln a" using pos by (simp add: ln_ge_iff)
  moreover have "ln a \<le> a - 1" using pos by (rule ln_le_minus_one)
  ultimately show ?thesis using a(2) by simp
qed

lemma cell_scale:
  assumes "i < 4" "j < 4" "k < 4"
  shows "1 \<le> (1 + 0.20 * real i) * (1 + 0.20 * real j) * (1 + 0.05 * real k)
         \<and> (1 + 0.20 * real i) * (1 + 0.20 * real j) * (1 + 0.05 * real k) \<le> 3"
proof -
  let ?x = "1 + 0.20 * real i" and ?y = "1 + 0.20 * real j" and ?z = "1 + 0.05 * real k"
  have x: "1 \<le> ?x" "?x \<le> 1.6" and y: "1 \<le> ?y" "?y \<le> 1.6" and z: "1 \<le> ?z" "?z \<le> 1.15"
    using assms by simp_all
  have "1 * 1 \<le> ?x * ?y" using x(1) y(1) by (intro mult_mono) simp_all
  then have xy1: "1 \<le> ?x * ?y" by simp
  then have "1 * 1 \<le> ?x * ?y * ?z" using z(1) by (intro mult_mono) simp_all
  then have lo: "1 \<le> ?x * ?y * ?z" by simp
  have xy2: "?x * ?y \<le> 1.6 * 1.6" using x y by (intro mult_mono) simp_all
  have "?x * ?y * ?z \<le> (1.6 * 1.6) * 1.15"
  proof (rule mult_mono)
    show "?x * ?y \<le> 1.6 * 1.6" by (rule xy2)
    show "?z \<le> 1.15" by (rule z(2))
    show "(0::real) \<le> 1.6 * 1.6" by simp
    show "0 \<le> ?z" using z(1) by linarith
  qed
  then have "?x * ?y * ?z \<le> 3" by simp
  with lo show ?thesis by blast
qed

lemma cell_mu:
  assumes "i < 4" "j < 4" "k < 4"
  shows "- 1 \<le> ln (0.6 * ((1 + 0.20 * real i) * (1 + 0.20 * real j) * (1 + 0.05 * real k)))
         \<and> ln (0.6 * ((1 + 0.20 * real i) * (1 + 0.20 * real j) * (1 + 0.05 * real k))) \<le> 1"
proof -
  let ?s = "(1 + 0.20 * real i) * (1 + 0.20 * real j) * (1 + 0.05 * real k)"
  have s: "1 \<le> ?s" "?s \<le> 3" using cell_scale [OF assms] by blast+
  then have m: "0.6 \<le> 0.6 * ?s" "0.6 * ?s \<le> 1.8" by simp_all
  then have pos: "0 < 0.6 * ?s" by linarith
  have "exp (- 1 :: real) \<le> 1 / 2"
    using exp_ge_add_one_self [of 1] by (simp add: exp_minus field_simps)
  then have "exp (- 1 :: real) \<le> 0.6 * ?s" using m(1) by linarith
  then have "- 1 \<le> ln (0.6 * ?s)" using pos by (simp only: ln_ge_iff)
  moreover have "ln (0.6 * ?s) \<le> 0.6 * ?s - 1" using pos by (rule ln_le_minus_one)
  ultimately show ?thesis using m(2) by linarith
qed

lemma cell_prior:
  assumes "i < 4" "j < 4" "k < 4"
  shows "sum_list (cellPriorAlpha i j k) = 1"
proof -
  let ?mu = "ln (0.6 * ((1 + 0.20 * real i) * (1 + 0.20 * real j) * (1 + 0.05 * real k)))"
  have "0 < lognormalPdf ?mu 0.35 a" if "a \<in> set magnitudeGridDva" for a
  proof (rule lognormalPdf_pos)
    show "0 < a" using grid_pos that by blast
    have la: "- 5 \<le> ln a" "ln a \<le> 3 / 2"
      using ln_grid [OF that] by blast+
    have lm: "- 1 \<le> ?mu" "?mu \<le> 1"
      using cell_mu [OF assms] by blast+
    have "\<bar>ln a - ?mu\<bar> \<le> 6"
      using la lm by linarith
    then have "\<bar>ln a - ?mu\<bar> \<le> \<bar>6\<bar>"
      by simp
    then have "(ln a - ?mu) ^ 2 \<le> 6 ^ 2"
      by (simp only: abs_le_square_iff)
    then show "(ln a - ?mu) ^ 2 \<le> 745.14 * (2 * 0.35 * 0.35)"
      by simp
  qed simp
  then have "0 < sum_list (map (lognormalPdf ?mu 0.35) magnitudeGridDva)"
    using grid_nonempty by (intro sum_list_pos_real) simp_all
  then have "sum_list (map (lognormalPdf ?mu 0.35) magnitudeGridDva) \<noteq> 0"
    by simp
  then show ?thesis
    unfolding cellPriorAlpha_def by (rule prior_sums_to_1)
qed

text \<open>
  C3, as the code has it: for a grid of positive values, a positive \<^verbatim>\<open>sigma\<close> and a
  positive median \<^verbatim>\<open>base * scale\<close>, the vector that \<^verbatim>\<open>alphaPriorOnGrid\<close> returns
  sums to 1 whenever the computed densities do not sum to zero; this is so for the
  40-point grid and each of the 4 x 4 x 4 cells of \<^verbatim>\<open>initAdaptiveQuest\<close>. When all
  computed densities are zero, the sum is replaced by 1 and the vector of zeros is
  returned; no uniform vector takes its place.
\<close>

theorem prior_normalised:
  "((\<forall>a \<in> set g. 0 < a) \<and> 0 < sigma
      \<and> 0 < base * ((1 + kSOA * soaI) * (1 + kECC * eccI) * (1 + kANG * angI))
      \<and> sum_list (map (lognormalPdf (ln (base * ((1 + kSOA * soaI) * (1 + kECC * eccI) * (1 + kANG * angI)))) sigma) g) \<noteq> 0
     \<longrightarrow> sum_list (alphaPriorOnGrid g soaI eccI angI base kSOA kECC kANG sigma) = 1)
   \<and> (i < 4 \<and> j < 4 \<and> k < 4 \<longrightarrow> sum_list (cellPriorAlpha i j k) = 1)
   \<and> ((\<forall>a \<in> set g. lognormalPdf (ln (base * ((1 + kSOA * soaI) * (1 + kECC * eccI) * (1 + kANG * angI)))) sigma a = 0)
     \<longrightarrow> alphaPriorOnGrid g soaI eccI angI base kSOA kECC kANG sigma = map (\<lambda>a. 0) g)"
  using prior_sums_to_1 [of base kSOA soaI kECC eccI kANG angI sigma g]
    cell_prior [of i j k]
    prior_all_zero [of g base kSOA soaI kECC eccI kANG angI sigma]
  by blast

theorem prior_normalised_witness:
  "list_all (\<lambda>a. 0 < a) [0.6, 1.2 :: real] \<and> (0::real) < 0.35
   \<and> (0::real) < 0.6 * ((1 + 0.20 * 0) * (1 + 0.20 * 0) * (1 + 0.05 * 0))
   \<and> sum_list (map (lognormalPdf (ln (0.6 * ((1 + 0.20 * 0) * (1 + 0.20 * 0) * (1 + 0.05 * 0)))) 0.35) [0.6, 1.2]) \<noteq> 0
   \<and> sum_list (alphaPriorOnGrid [0.6, 1.2] 0 0 0 0.6 0.20 0.20 0.05 0.35) = 1
   \<and> (3::nat) < 4 \<and> sum_list (cellPriorAlpha 3 3 3) = 1
   \<and> list_all (\<lambda>a. lognormalPdf (ln (0.6 * ((1 + 0.20 * 0) * (1 + 0.20 * 0) * (1 + 0.05 * 0)))) 0.35 a = 0)
        [1000000, 2000000]
   \<and> alphaPriorOnGrid [1000000, 2000000] 0 0 0 0.6 0.20 0.20 0.05 0.35 = [0, 0]"
proof -
  let ?mu = "ln (0.6 * ((1 + 0.20 * 0) * (1 + 0.20 * 0) * (1 + 0.05 * 0)))"
  have mu: "?mu = ln (0.6 :: real)" by simp
  have p1: "0 < lognormalPdf ?mu 0.35 0.6"
    by (rule lognormalPdf_pos) simp_all
  have "ln (1.2 / 0.6 :: real) = ln 1.2 - ln 0.6"
    by (rule ln_divide_pos) simp_all
  then have l2: "ln (1.2 :: real) - ?mu = ln 2" by simp
  have "0 \<le> ln (2::real)" "ln (2::real) \<le> 1"
    using ln_le_minus_one [of "2::real"] by simp_all
  then have "\<bar>ln (2::real)\<bar> \<le> \<bar>1\<bar>" by simp
  then have "ln (2::real) ^ 2 \<le> 1 ^ 2" by (simp only: abs_le_square_iff)
  then have "(ln (1.2 :: real) - ?mu) ^ 2 \<le> 745.14 * (2 * 0.35 * 0.35)"
    unfolding l2 by simp
  then have p2: "0 < lognormalPdf ?mu 0.35 1.2"
    by (intro lognormalPdf_pos) simp_all
  have h4: "sum_list (map (lognormalPdf ?mu 0.35) [0.6, 1.2]) \<noteq> 0"
    using p1 p2 by simp
  have h1: "list_all (\<lambda>a. 0 < a) [0.6, 1.2 :: real]" "(0::real) < 0.35"
    "(0::real) < 0.6 * ((1 + 0.20 * 0) * (1 + 0.20 * 0) * (1 + 0.05 * 0))" "(3::nat) < 4"
    by simp_all
  have z: "list_all (\<lambda>a. lognormalPdf ?mu 0.35 a = 0) [1000000, 2000000]"
    using underflow_at [of 1000000] underflow_at [of 2000000] by simp
  have c1: "sum_list (alphaPriorOnGrid [0.6, 1.2] 0 0 0 0.6 0.20 0.20 0.05 0.35) = 1"
    using prior_normalised [of "[0.6, 1.2]" "0.35" "0.6" "0.20" 0 "0.20" 0 "0.05" 0 3 3 3] h1 h4
    by (simp only: list_all_iff) blast
  have c2: "sum_list (cellPriorAlpha 3 3 3) = 1"
    using prior_normalised [of "[]" "0.35" "0.6" "0.20" 0 "0.20" 0 "0.05" 0 3 3 3] by simp
  have c3: "alphaPriorOnGrid [1000000, 2000000] 0 0 0 0.6 0.20 0.20 0.05 0.35 = [0, 0]"
    using prior_normalised [of "[1000000, 2000000]" "0.35" "0.6" "0.20" 0 "0.20" 0 "0.05" 0 3 3 3] z
    by (simp add: list_all_iff)
  from h1(1,2,3) h4 c1 h1(4) c2 z c3 show ?thesis
    by (intro conjI)
qed

text \<open>
  The claim as the specification has it fails where \<^verbatim>\<open>Math.exp\<close> underflows: on the
  grid \<open>[1000000, 2000000]\<close>, with the arguments of the cell \<open>(0, 0, 0)\<close>, both
  exponents are below -745.14, both densities are 0, and the result is \<open>[0, 0]\<close>,
  which neither sums to 1 nor is uniform.
\<close>

theorem prior_underflow:
  "alphaPriorOnGrid [1000000, 2000000] 0 0 0 0.6 0.20 0.20 0.05 0.35 = [0, 0]
   \<and> sum_list (alphaPriorOnGrid [1000000, 2000000] 0 0 0 0.6 0.20 0.20 0.05 0.35) = 0"
proof -
  have "\<forall>a \<in> set [1000000, 2000000 :: real].
          lognormalPdf (ln (0.6 * ((1 + 0.20 * 0) * (1 + 0.20 * 0) * (1 + 0.05 * 0)))) 0.35 a = 0"
    using underflow_at [of 1000000] underflow_at [of 2000000] by simp
  from prior_all_zero [OF this] show ?thesis by simp
qed

end
